theory Spec2Isabelle
  imports Main "HOL-Library.AList"
begin

section \<open>JavaScript values of a SCIM payload\<close>

text \<open>
  \<open>event.data.raw\<close> is typed \<open>any\<close>: it is the parsed SCIM document.  A value is
  \<open>undefined\<close>, \<open>null\<close>, a boolean, a number, a string, an array or a plain object.
  An object is the list of its own enumerable properties in the order \<open>Object.entries\<close>
  yields them; reading a property finds the first pair with that name.  The program only
  ever asks of a number whether it is falsy and what its \<open>typeof\<close> is, so a number is
  represented by an integer, \<open>0\<close> standing for the falsy numbers.
\<close>

datatype jsval =
    JUndefined
  | JNull
  | JBool bool
  | JNum int
  | JStr string
  | JArr "jsval list"
  | JObj "(string \<times> jsval) list"

datatype jsError = TypeError

text \<open>ToBoolean, as used by \<open>!value\<close> and by \<open>if (x)\<close>.\<close>

fun truthy :: "jsval \<Rightarrow> bool" where
  "truthy JUndefined = False"
| "truthy JNull = False"
| "truthy (JBool b) = b"
| "truthy (JNum n) = (n \<noteq> 0)"
| "truthy (JStr s) = (s \<noteq> [])"
| "truthy (JArr xs) = True"
| "truthy (JObj kvs) = True"

text \<open>\<open>typeof value === "string"\<close>.\<close>

fun isString :: "jsval \<Rightarrow> bool" where
  "isString (JStr s) = True"
| "isString v = False"

text \<open>\<open>value instanceof Array && value.every((item) => typeof item === "string")\<close>.\<close>

fun isStringArray :: "jsval \<Rightarrow> bool" where
  "isStringArray (JArr xs) = list_all isString xs"
| "isStringArray v = False"

text \<open>
  An object literal \<open>{}\<close> and a parsed document inherit from \<open>Object.prototype\<close>.  Reading
  a property that is not an own property walks to the prototype, which answers for the
  names below with a built-in function (or, for \<open>__proto__\<close>, with the prototype object
  itself): a truthy value that has no own enumerable property.
\<close>

definition objectPrototypeKeys :: "string list" where
  "objectPrototypeKeys =
    [''constructor'', ''__defineGetter__'', ''__defineSetter__'', ''hasOwnProperty'',
     ''__lookupGetter__'', ''__lookupSetter__'', ''isPrototypeOf'', ''propertyIsEnumerable'',
     ''toString'', ''valueOf'', ''__proto__'', ''toLocaleString'']"

datatype property = Own jsval | Inherited | Absent

text \<open>\<open>obj[name]\<close> on an object with the own properties \<open>props\<close>.\<close>

definition getProperty :: "(string \<times> jsval) list \<Rightarrow> string \<Rightarrow> property" where
  "getProperty props name =
    (case map_of props name of
       Some v \<Rightarrow> Own v
     | None \<Rightarrow> if name \<in> set objectPrototypeKeys then Inherited else Absent)"

fun propertyTruthy :: "property \<Rightarrow> bool" where
  "propertyTruthy (Own v) = truthy v"
| "propertyTruthy Inherited = True"
| "propertyTruthy Absent = False"

text \<open>The decimal numeral of an array index, the property name of that element.\<close>

fun toStringNat :: "nat \<Rightarrow> string" where
  "toStringNat n =
    (if n < 10 then [char_of (48 + n)]
     else toStringNat (n div 10) @ [char_of (48 + n mod 10)])"

declare toStringNat.simps [simp del]

text \<open>
  \<open>Object.entries(value)\<close>: it throws a TypeError on \<open>undefined\<close> and \<open>null\<close>, yields
  nothing for a boolean or a number, the characters of a string and the elements of an
  array under their indices, and the own properties of an object.
\<close>

fun objectEntries :: "jsval \<Rightarrow> jsError + (string \<times> jsval) list" where
  "objectEntries JUndefined = Inl TypeError"
| "objectEntries JNull = Inl TypeError"
| "objectEntries (JBool b) = Inr []"
| "objectEntries (JNum n) = Inr []"
| "objectEntries (JStr s) = Inr (zip (map toStringNat [0..<length s]) (map (\<lambda>c. JStr [c]) s))"
| "objectEntries (JArr xs) = Inr (zip (map toStringNat [0..<length xs]) xs)"
| "objectEntries (JObj kvs) = Inr kvs"

section \<open>The event, the log and the state of one call\<close>

text \<open>
  Of a \<open>DirectorySyncEvent\<close> the function reads \<open>event.event\<close> and \<open>event.data.raw\<close> only.
\<close>

record eventData =
  raw :: jsval

record directorySyncEvent =
  event :: string
  data :: eventData

text \<open>
  The logger and the console are written to and never read.  A message is kept by its
  template and its argument rather than as text, since \<open>safeStringify\<close> is not part of
  this file.
\<close>

datatype logMessage =
    UnsupportedEvent string
  | NamespaceNameNotString jsval
  | NamespaceDataNull string
  | CustomAttributeNull string
  | CustomAttributeExists string

datatype effect =
    LogError logMessage
  | LogWarn logMessage
  | ConsoleLog "(string \<times> jsval) list"

text \<open>
  \<open>scimUserAttributes\<close> is the object the call builds; \<open>emitted\<close> is everything the
  logger and the console have received so far.  Assigning \<open>obj[name] = value\<close> replaces
  the value of an own property or adds the property at the end, which is \<open>AList.update\<close>.
  The list keeps the properties in the order of their creation; an engine enumerates
  keys that are array indices before the others, which changes neither the keys nor
  their values.
\<close>

record extraction =
  scimUserAttributes :: "(string \<times> jsval) list"
  emitted :: "effect list"

definition emit :: "effect \<Rightarrow> extraction \<Rightarrow> extraction" where
  "emit e st = st\<lparr>emitted := emitted st @ [e]\<rparr>"

section \<open>getAttributesFromScimPayload\<close>

definition coreSchemaUrn :: string where
  "coreSchemaUrn = ''urn:ietf:params:scim:schemas:core:2.0:User''"

definition coreUserAttributesToIgnore :: "string list" where
  "coreUserAttributesToIgnore =
    [''userName'', ''name'', ''displayName'', ''emails'', ''active'', ''externalId'', ''id'',
     ''groups'', ''meta'', ''locale'', ''password'', ''phoneNumbers'', ''photos'',
     ''profileUrl'', ''timezone'', ''title'', ''addresses'', ''entitlements'', ''ims'',
     ''roles'', ''x509Certificates'']"

text \<open>The callback of \<open>Object.entries(data).forEach\<close> in \<open>collectAttributes\<close>.\<close>

definition collectAttribute :: "string list \<Rightarrow> extraction \<Rightarrow> string \<times> jsval \<Rightarrow> extraction" where
  "collectAttribute ignoreList st entry =
    (case entry of (customAttributeName, value) \<Rightarrow>
      if customAttributeName \<in> set ignoreList then st
      else if \<not> truthy value then emit (LogWarn (CustomAttributeNull customAttributeName)) st
      else if propertyTruthy (getProperty (scimUserAttributes st) customAttributeName)
        then emit (LogWarn (CustomAttributeExists customAttributeName)) st
      else if isString value \<or> isStringArray value
        then st\<lparr>scimUserAttributes :=
                 AList.update customAttributeName value (scimUserAttributes st)\<rparr>
      else st)"

definition collectAttributes :: "jsval \<Rightarrow> string list \<Rightarrow> extraction \<Rightarrow> jsError + extraction" where
  "collectAttributes data' ignoreList st =
    (case objectEntries data' of
       Inl e \<Rightarrow> Inl e
     | Inr entries \<Rightarrow> Inr (foldl (collectAttribute ignoreList) st entries))"

text \<open>
  The callback of \<open>raw.schemas.forEach\<close>, for a \<open>raw\<close> with the own properties \<open>rawProps\<close>.
  The rest pattern \<open>{ schemas: _schemas, ...namespaceData }\<close> copies every own property
  but \<open>schemas\<close>.  When \<open>raw[namespaceName]\<close> is inherited from the prototype it is
  truthy and \<open>Object.entries\<close> finds nothing in it, as in an empty object.
\<close>

definition processSchema ::
  "(string \<times> jsval) list \<Rightarrow> extraction \<Rightarrow> jsval \<Rightarrow> jsError + extraction" where
  "processSchema rawProps st schema =
    (if schema = JStr coreSchemaUrn
       then collectAttributes (JObj (filter (\<lambda>(k, v). k \<noteq> ''schemas'') rawProps))
              coreUserAttributesToIgnore st
     else case schema of
       JStr namespaceName \<Rightarrow>
         (case getProperty rawProps namespaceName of
            Own namespaceData \<Rightarrow>
              if \<not> truthy namespaceData
                then Inr (emit (LogWarn (NamespaceDataNull namespaceName)) st)
              else collectAttributes namespaceData [] st
          | Inherited \<Rightarrow> collectAttributes (JObj []) [] st
          | Absent \<Rightarrow> Inr (emit (LogWarn (NamespaceDataNull namespaceName)) st))
     | _ \<Rightarrow> Inr (emit (LogError (NamespaceNameNotString schema)) st))"

text \<open>\<open>Array.prototype.forEach\<close> with a callback that may throw.\<close>

fun forEach :: "('s \<Rightarrow> 'a \<Rightarrow> jsError + 's) \<Rightarrow> 'a list \<Rightarrow> 's \<Rightarrow> jsError + 's" where
  "forEach f [] st = Inr st"
| "forEach f (x # xs) st = (case f st x of Inl e \<Rightarrow> Inl e | Inr st' \<Rightarrow> forEach f xs st')"

text \<open>
  The function itself.  \<open>directoryIdsToLog\<close> is the imported constant
  \<open>DIRECTORY_IDS_TO_LOG\<close>, and \<open>world\<close> is what the logger and the console received
  before the call.  The call returns the attributes together with the new log, or
  throws.  \<open>raw.schemas.forEach\<close> throws a TypeError unless \<open>raw\<close> is an object whose
  \<open>schemas\<close> is an array: a property of \<open>undefined\<close> or \<open>null\<close> cannot be read, and any
  other value has no callable \<open>forEach\<close>.
\<close>

definition getAttributesFromScimPayload ::
  "string list \<Rightarrow> directorySyncEvent \<Rightarrow> string \<Rightarrow> effect list
    \<Rightarrow> jsError + ((string \<times> jsval) list \<times> effect list)" where
  "getAttributesFromScimPayload directoryIdsToLog ev directoryId world =
    (if event ev \<noteq> ''user.created'' \<and> event ev \<noteq> ''user.updated''
       then Inr ([], world @ [LogError (UnsupportedEvent (event ev))])
     else case raw (data ev) of
       JObj rawProps \<Rightarrow>
         (case getProperty rawProps ''schemas'' of
            Own (JArr schemas) \<Rightarrow>
              (case forEach (processSchema rawProps) schemas
                      \<lparr>scimUserAttributes = [], emitted = world\<rparr> of
                 Inl e \<Rightarrow> Inl e
               | Inr st \<Rightarrow>
                   Inr (scimUserAttributes st,
                        if directoryId \<in> set directoryIdsToLog
                          then emitted st @ [ConsoleLog (scimUserAttributes st)]
                        else emitted st))
          | _ \<Rightarrow> Inl TypeError)
     | _ \<Rightarrow> Inl TypeError)"

text \<open>What the caller receives: the attribute map, or the exception.\<close>

definition returned ::
  "jsError + ((string \<times> jsval) list \<times> effect list) \<Rightarrow> jsError + (string \<times> jsval) list" where
  "returned r = (case r of Inl e \<Rightarrow> Inl e | Inr (attributes, log) \<Rightarrow> Inr attributes)"

section \<open>Notions used to state the properties\<close>

text \<open>The two tests a value passes before it is written: it is truthy, and it is a string
  or an array of strings.\<close>

definition acceptedValue :: "jsval \<Rightarrow> bool" where
  "acceptedValue v = (truthy v \<and> (isString v \<or> isStringArray v))"

text \<open>The attribute map of a state, or the exception.\<close>

definition collected :: "jsError + extraction \<Rightarrow> jsError + (string \<times> jsval) list" where
  "collected r = (case r of Inl e \<Rightarrow> Inl e | Inr st \<Rightarrow> Inr (scimUserAttributes st))"

definition allAccepted :: "(string \<times> jsval) list \<Rightarrow> bool" where
  "allAccepted al = list_all (\<lambda>p. acceptedValue (snd p)) al"

text \<open>The event kinds the function handles.\<close>

definition supported :: "directorySyncEvent \<Rightarrow> bool" where
  "supported ev = (event ev = ''user.created'' \<or> event ev = ''user.updated'')"

text \<open>\<open>raw\<close> is an object whose \<open>schemas\<close> is an array.\<close>

definition hasSchemas :: "directorySyncEvent \<Rightarrow> bool" where
  "hasSchemas ev =
    (case raw (data ev) of
       JObj rawProps \<Rightarrow> (case getProperty rawProps ''schemas'' of Own (JArr ss) \<Rightarrow> True | _ \<Rightarrow> False)
     | _ \<Rightarrow> False)"

section \<open>Example inputs\<close>

text \<open>The first scenario of the specification, and the same document under an event kind
  the function does not handle.\<close>

definition scenarioEvent :: directorySyncEvent where
  "scenarioEvent =
    \<lparr>event = ''user.created'',
     data = \<lparr>raw = JObj
       [(''schemas'', JArr [JStr ''urn:ietf:params:scim:schemas:core:2.0:User'',
                            JStr ''segment'', JStr ''territory'']),
        (''userName'', JStr ''a@b.com''),
        (''segment'', JObj [(''segment'', JStr ''SMB'')]),
        (''territory'', JObj [(''territory'', JStr ''NAM'')])]\<rparr>\<rparr>"

definition deletedEvent :: directorySyncEvent where
  "deletedEvent = scenarioEvent\<lparr>event := ''user.deleted''\<rparr>"

text \<open>A document without \<open>schemas\<close>.\<close>

definition noSchemasEvent :: directorySyncEvent where
  "noSchemasEvent =
    \<lparr>event = ''user.created'', data = \<lparr>raw = JObj [(''userName'', JStr ''a@b.com'')]\<rparr>\<rparr>"

text \<open>The fourth scenario: the core namespace carries \<open>title\<close>, which is on the ignore
  list, and \<open>nickname\<close>, which is not.\<close>

definition titleNicknameEvent :: directorySyncEvent where
  "titleNicknameEvent =
    \<lparr>event = ''user.updated'',
     data = \<lparr>raw = JObj
       [(''schemas'', JArr [JStr ''urn:ietf:params:scim:schemas:core:2.0:User'']),
        (''title'', JStr ''VP''),
        (''nickname'', JStr ''Bob'')]\<rparr>\<rparr>"

text \<open>The fifth and sixth scenarios: a number and an array of strings in one namespace.\<close>

definition scoreEvent :: directorySyncEvent where
  "scoreEvent =
    \<lparr>event = ''user.created'',
     data = \<lparr>raw = JObj
       [(''schemas'', JArr [JStr ''segment'']),
        (''segment'', JObj [(''score'', JNum 42), (''segment'', JArr [JStr ''SMB'', JStr ''Enterprise''])])]\<rparr>\<rparr>"

text \<open>The third scenario: \<open>custom\<close> is declared in \<open>schemas\<close> and missing from the document.\<close>

definition missingNamespaceEvent :: directorySyncEvent where
  "missingNamespaceEvent =
    \<lparr>event = ''user.created'',
     data = \<lparr>raw = JObj
       [(''schemas'', JArr [JStr ''custom'', JStr ''territory'']),
        (''territory'', JObj [(''territory'', JStr ''NAM'')])]\<rparr>\<rparr>"

text \<open>Two namespaces that declare the same field; in the second document the value of the
  first namespace is the empty string.\<close>

definition twoLevelsProps :: "(string \<times> jsval) list" where
  "twoLevelsProps =
       [(''schemas'', JArr [JStr ''first'', JStr ''second'']),
        (''first'', JObj [(''level'', JStr ''silver'')]),
        (''second'', JObj [(''level'', JStr ''gold'')])]"

definition twoLevelsEvent :: directorySyncEvent where
  "twoLevelsEvent = \<lparr>event = ''user.created'', data = \<lparr>raw = JObj twoLevelsProps\<rparr>\<rparr>"

definition emptyFirstEvent :: directorySyncEvent where
  "emptyFirstEvent =
    \<lparr>event = ''user.created'',
     data = \<lparr>raw = JObj
       [(''schemas'', JArr [JStr ''first'', JStr ''second'']),
        (''first'', JObj [(''level'', JStr '''')]),
        (''second'', JObj [(''level'', JStr ''gold'')])]\<rparr>\<rparr>"

text \<open>A namespace with a field named like a property of \<open>Object.prototype\<close>.\<close>

definition constructorEvent :: directorySyncEvent where
  "constructorEvent =
    \<lparr>event = ''user.created'',
     data = \<lparr>raw = JObj
       [(''schemas'', JArr [JStr ''custom'']),
        (''custom'', JObj [(''constructor'', JArr [])])]\<rparr>\<rparr>"

section \<open>Auxiliary facts\<close>

lemmas eval_defs =
  getAttributesFromScimPayload_def returned_def collected_def getProperty_def processSchema_def
  collectAttributes_def collectAttribute_def emit_def coreSchemaUrn_def
  coreUserAttributesToIgnore_def objectPrototypeKeys_def supported_def hasSchemas_def
  acceptedValue_def

lemma attrs_emit [simp]: "scimUserAttributes (emit e st) = scimUserAttributes st"
  by (simp add: emit_def)

lemma collectAttribute_attrs:
  "scimUserAttributes (collectAttribute ign st (k, v)) =
    (if k \<notin> set ign \<and> truthy v \<and> \<not> propertyTruthy (getProperty (scimUserAttributes st) k)
        \<and> (isString v \<or> isStringArray v)
     then AList.update k v (scimUserAttributes st) else scimUserAttributes st)"
  by (simp add: collectAttribute_def)

lemma set_update_cases:
  "p \<in> set (AList.update k v al) \<Longrightarrow> p = (k, v) \<or> p \<in> set al"
  by (induction al) (auto split: if_splits)

lemma foldl_invariant:
  assumes "P st" and "\<And>s x. P s \<Longrightarrow> P (f s x)"
  shows "P (foldl f st xs)"
  using assms(1) by (induction xs arbitrary: st) (simp_all add: assms(2))

lemma forEach_invariant:
  assumes "forEach f xs st = Inr st'" and "P st"
    and "\<And>s x s'. P s \<Longrightarrow> f s x = Inr s' \<Longrightarrow> P s'"
  shows "P st'"
  using assms(1,2)
proof (induction xs arbitrary: st)
  case Nil
  then show ?case by simp
next
  case (Cons x xs)
  then show ?case by (auto split: sum.splits intro: assms(3))
qed

lemma objectEntries_truthy: "truthy v \<Longrightarrow> \<exists>es. objectEntries v = Inr es"
  by (cases v) simp_all

lemma collectAttributes_total:
  "truthy d \<Longrightarrow> \<exists>st'. collectAttributes d ign st = Inr st'"
  using objectEntries_truthy [of d] by (auto simp: collectAttributes_def)

lemma processSchema_total: "\<exists>st'. processSchema rawProps st schema = Inr st'"
proof (cases "schema = JStr coreSchemaUrn")
  case True
  then show ?thesis by (simp add: processSchema_def collectAttributes_total)
next
  case False
  then show ?thesis
    by (cases schema)
       (simp_all add: processSchema_def collectAttributes_total split: property.splits)
qed

lemma forEach_processSchema_total: "\<exists>st'. forEach (processSchema rawProps) schemas st = Inr st'"
proof (induction schemas arbitrary: st)
  case Nil
  show ?case by simp
next
  case (Cons s schemas)
  obtain st1 where "processSchema rawProps st s = Inr st1"
    using processSchema_total by blast
  then show ?case using Cons [of st1] by simp
qed

text \<open>Anything kept by the attribute callback and by logging is kept by the whole loop.\<close>

lemma collectAttributes_invariant:
  assumes "collectAttributes d ign st = Inr st'" and "P st"
    and "\<And>s x. P s \<Longrightarrow> P (collectAttribute ign s x)"
  shows "P st'"
proof -
  have "P (foldl (collectAttribute ign) st xs)" for xs
    using assms(2) by (rule foldl_invariant) (rule assms(3))
  with assms(1) show ?thesis
    by (auto simp: collectAttributes_def split: sum.splits)
qed

lemma processSchema_invariant:
  assumes "processSchema rawProps st schema = Inr st'" and "P st"
    and "\<And>ign s x. P s \<Longrightarrow> P (collectAttribute ign s x)"
    and "\<And>e s. P s \<Longrightarrow> P (emit e s)"
  shows "P st'"
proof -
  have coll: "collectAttributes d ign st = Inr st' \<Longrightarrow> P st'" for d ign
    using assms(2,3) by (rule collectAttributes_invariant[rotated])
  have log: "P (emit e st)" for e
    using assms(2) by (rule assms(4))
  from assms(1) show ?thesis
    by (auto simp: processSchema_def log
             split: if_splits jsval.splits property.splits intro: coll)
qed

lemma schemas_invariant:
  assumes "forEach (processSchema rawProps) schemas st = Inr st'" and "P st"
    and "\<And>ign s x. P s \<Longrightarrow> P (collectAttribute ign s x)"
    and "\<And>e s. P s \<Longrightarrow> P (emit e s)"
  shows "P st'"
  using assms(1,2)
proof (rule forEach_invariant)
  fix s x s' assume "P s" "processSchema rawProps s x = Inr s'"
  then show "P s'"
    using assms(3,4) processSchema_invariant [of rawProps s x s' P] by blast
qed

lemma collectAttribute_accepted:
  "allAccepted (scimUserAttributes st) \<Longrightarrow> allAccepted (scimUserAttributes (collectAttribute ign st x))"
  by (cases x)
     (auto simp: allAccepted_def list_all_iff collectAttribute_attrs acceptedValue_def
           dest!: set_update_cases)

lemma collectAttribute_keeps:
  assumes "allAccepted (scimUserAttributes st)" and "map_of (scimUserAttributes st) k = Some v"
  shows "map_of (scimUserAttributes (collectAttribute ign st x)) k = Some v"
proof -
  obtain k' v' where x: "x = (k', v')" by (cases x)
  have "truthy v"
    using assms map_of_SomeD [of "scimUserAttributes st" k v]
    by (auto simp: allAccepted_def list_all_iff acceptedValue_def)
  then have "k' = k \<Longrightarrow> propertyTruthy (getProperty (scimUserAttributes st) k')"
    using assms(2) by (simp add: getProperty_def)
  then show ?thesis
    using assms(2) by (auto simp: x collectAttribute_attrs update_conv')
qed

lemma returned_loop:
  assumes "supported ev" and "raw (data ev) = JObj rawProps"
    and "getProperty rawProps ''schemas'' = Own (JArr schemas)"
  shows "returned (getAttributesFromScimPayload ids ev dir world) =
           collected (forEach (processSchema rawProps) schemas
                        \<lparr>scimUserAttributes = [], emitted = world\<rparr>)"
  using assms
  by (auto simp: getAttributesFromScimPayload_def supported_def returned_def collected_def
           split: sum.splits)

lemma returned_cases:
  assumes "getAttributesFromScimPayload ids ev dir world = Inr (m, log)"
  shows "m = [] \<or> (\<exists>rawProps schemas st.
            forEach (processSchema rawProps) schemas \<lparr>scimUserAttributes = [], emitted = world\<rparr> = Inr st
            \<and> m = scimUserAttributes st)"
  using assms
  by (auto simp: getAttributesFromScimPayload_def
           split: if_splits jsval.splits property.splits sum.splits)

lemma output_accepted:
  assumes "getAttributesFromScimPayload ids ev dir world = Inr (m, log)"
  shows "allAccepted m"
proof -
  have "allAccepted (scimUserAttributes st)"
    if "forEach (processSchema rawProps) schemas \<lparr>scimUserAttributes = [], emitted = world\<rparr> = Inr st"
    for rawProps schemas st
    using that
    by (rule schemas_invariant) (simp_all add: collectAttribute_accepted, simp add: allAccepted_def)
  then show ?thesis
    using returned_cases [OF assms] by (auto simp: allAccepted_def)
qed

lemma collectAttribute_same:
  "scimUserAttributes st = scimUserAttributes st' \<Longrightarrow>
   scimUserAttributes (collectAttribute ign st x) = scimUserAttributes (collectAttribute ign st' x)"
  by (cases x) (simp only: collectAttribute_attrs)

lemma foldl_collectAttribute_same:
  "scimUserAttributes st = scimUserAttributes st' \<Longrightarrow>
   scimUserAttributes (foldl (collectAttribute ign) st xs) =
   scimUserAttributes (foldl (collectAttribute ign) st' xs)"
proof (induction xs arbitrary: st st')
  case Nil
  then show ?case by simp
next
  case (Cons x xs)
  show ?case
    using Cons.IH [OF collectAttribute_same [OF Cons.prems]] by simp
qed

lemma collectAttributes_same:
  assumes "scimUserAttributes st = scimUserAttributes st'"
  shows "collected (collectAttributes d ign st) = collected (collectAttributes d ign st')"
proof (cases "objectEntries d")
  case (Inl e)
  then show ?thesis by (simp add: collectAttributes_def)
next
  case (Inr entries)
  then show ?thesis
    using foldl_collectAttribute_same [OF assms, of ign entries]
    by (simp add: collectAttributes_def collected_def)
qed

lemma processSchema_same:
  assumes "scimUserAttributes st = scimUserAttributes st'"
  shows "collected (processSchema rawProps st schema) = collected (processSchema rawProps st' schema)"
proof -
  have coll: "collected (collectAttributes d ign st) = collected (collectAttributes d ign st')" for d ign
    using assms by (rule collectAttributes_same)
  have log: "collected (Inr (emit e st)) = collected (Inr (emit e st'))" for e
    using assms by (simp add: collected_def)
  show ?thesis
  proof (cases "schema = JStr coreSchemaUrn")
    case True
    then show ?thesis by (simp add: processSchema_def coll)
  next
    case False
    show ?thesis
    proof (cases schema)
      case (JStr namespaceName)
      with False show ?thesis
        by (cases "getProperty rawProps namespaceName") (simp_all add: processSchema_def coll log)
    qed (simp_all add: processSchema_def log)
  qed
qed

lemma forEach_processSchema_same:
  "scimUserAttributes st = scimUserAttributes st' \<Longrightarrow>
   collected (forEach (processSchema rawProps) schemas st) =
   collected (forEach (processSchema rawProps) schemas st')"
proof (induction schemas arbitrary: st st')
  case Nil
  then show ?case by (simp add: collected_def)
next
  case (Cons s schemas)
  obtain st1 where 1: "processSchema rawProps st s = Inr st1"
    using processSchema_total by blast
  obtain st1' where 2: "processSchema rawProps st' s = Inr st1'"
    using processSchema_total by blast
  have "scimUserAttributes st1 = scimUserAttributes st1'"
    using processSchema_same [OF Cons.prems, of rawProps s] by (simp add: 1 2 collected_def)
  then show ?case
    using Cons.IH [of st1 st1'] by (simp add: 1 2)
qed

lemma forEach_append:
  "forEach f (xs @ ys) st = (case forEach f xs st of Inl e \<Rightarrow> Inl e | Inr st' \<Rightarrow> forEach f ys st')"
  by (induction xs arbitrary: st) (simp_all split: sum.splits)

lemma hasSchemas_iff:
  "hasSchemas ev \<longleftrightarrow>
    (\<exists>rawProps schemas. raw (data ev) = JObj rawProps
        \<and> getProperty rawProps ''schemas'' = Own (JArr schemas))"
  by (auto simp: hasSchemas_def split: jsval.splits property.splits)

lemma unsupported_result:
  "\<not> supported ev \<Longrightarrow>
   getAttributesFromScimPayload ids ev dir world =
     Inr ([], world @ [LogError (UnsupportedEvent (event ev))])"
  by (simp add: getAttributesFromScimPayload_def supported_def)

lemma noSchemas_result:
  assumes "supported ev" and "\<not> hasSchemas ev"
  shows "getAttributesFromScimPayload ids ev dir world = Inl TypeError"
proof -
  have "(case raw (data ev) of
           JObj rawProps \<Rightarrow>
             (case getProperty rawProps ''schemas'' of
                Own (JArr schemas) \<Rightarrow> f rawProps schemas
              | _ \<Rightarrow> Inl TypeError)
         | _ \<Rightarrow> Inl TypeError) = Inl TypeError" for f :: "_ \<Rightarrow> _ \<Rightarrow> jsError + 'b"
    using assms(2) by (auto simp: hasSchemas_def split: jsval.splits property.splits)
  then show ?thesis
    using assms(1) by (simp add: getAttributesFromScimPayload_def supported_def)
qed

lemma returned_independent:
  "returned (getAttributesFromScimPayload ids ev dir world) =
   returned (getAttributesFromScimPayload ids' ev dir' world')"
proof (cases "supported ev")
  case False
  then show ?thesis by (simp add: unsupported_result returned_def)
next
  case True
  show ?thesis
  proof (cases "hasSchemas ev")
    case False
    with True show ?thesis by (simp add: noSchemas_result)
  next
    case h: True
    then obtain rawProps schemas where
      "raw (data ev) = JObj rawProps" "getProperty rawProps ''schemas'' = Own (JArr schemas)"
      by (auto simp: hasSchemas_iff)
    then show ?thesis
      using True by (simp add: returned_loop forEach_processSchema_same)
  qed
qed

lemma collectAttribute_ignored:
  "k \<in> set ign \<Longrightarrow>
   map_of (scimUserAttributes (collectAttribute ign st x)) k = map_of (scimUserAttributes st) k"
  by (cases x) (auto simp: collectAttribute_attrs update_conv')

lemma collectAttribute_other:
  "fst x \<noteq> k \<Longrightarrow>
   map_of (scimUserAttributes (collectAttribute ign st x)) k = map_of (scimUserAttributes st) k"
  by (cases x) (auto simp: collectAttribute_attrs update_conv')

lemma foldl_collectAttribute_keeps:
  assumes "allAccepted (scimUserAttributes st)" and "map_of (scimUserAttributes st) k = Some v"
  shows "map_of (scimUserAttributes (foldl (collectAttribute ign) st xs)) k = Some v"
proof -
  have "allAccepted (scimUserAttributes (foldl (collectAttribute ign) st xs))
        \<and> map_of (scimUserAttributes (foldl (collectAttribute ign) st xs)) k = Some v"
    by (rule foldl_invariant) (simp_all add: assms collectAttribute_accepted collectAttribute_keeps)
  then show ?thesis by simp
qed

lemma foldl_collectAttribute_writes:
  assumes "map_of entries k = Some v" and "acceptedValue v" and "k \<notin> set ign"
    and "getProperty (scimUserAttributes st) k = Absent"
    and "allAccepted (scimUserAttributes st)"
  shows "map_of (scimUserAttributes (foldl (collectAttribute ign) st entries)) k = Some v"
  using assms(1,4,5)
proof (induction entries arbitrary: st)
  case Nil
  then show ?case by simp
next
  case (Cons x entries)
  let ?st = "collectAttribute ign st x"
  have acc: "allAccepted (scimUserAttributes ?st)"
    using Cons.prems(3) by (rule collectAttribute_accepted)
  show ?case
  proof (cases "fst x = k")
    case True
    then have x: "x = (k, v)" using Cons.prems(1) by (cases x) simp
    have "map_of (scimUserAttributes ?st) k = Some v"
      using assms(2,3) Cons.prems(2)
      by (simp add: x collectAttribute_attrs acceptedValue_def update_conv')
    then show ?thesis
      using acc by (simp add: foldl_collectAttribute_keeps)
  next
    case False
    then have "map_of entries k = Some v" using Cons.prems(1) by (cases x) simp
    moreover have "getProperty (scimUserAttributes ?st) k = Absent"
      using Cons.prems(2) collectAttribute_other [OF False, of ign st]
      by (simp add: getProperty_def split: option.splits if_splits)
    ultimately show ?thesis
      using Cons.IH [of ?st] acc by simp
  qed
qed

lemma processSchema_core:
  "processSchema rawProps st (JStr coreSchemaUrn) =
     Inr (foldl (collectAttribute coreUserAttributesToIgnore) st
            (filter (\<lambda>(k, v). k \<noteq> ''schemas'') rawProps))"
  by (simp add: processSchema_def collectAttributes_def)

lemma processSchema_object:
  assumes "name \<noteq> coreSchemaUrn" and "getProperty rawProps name = Own (JObj entries)"
  shows "processSchema rawProps st (JStr name) = Inr (foldl (collectAttribute []) st entries)"
  using assms by (simp add: processSchema_def collectAttributes_def)

lemma foldl_collectAttribute_ignored:
  assumes "k \<in> set ign"
  shows "map_of (scimUserAttributes (foldl (collectAttribute ign) st entries)) k =
         map_of (scimUserAttributes st) k"
  by (rule foldl_invariant [where P = "\<lambda>s. map_of (scimUserAttributes s) k = map_of (scimUserAttributes st) k"])
     (simp_all add: collectAttribute_ignored [OF assms])

lemma processSchema_skips:
  assumes "(\<forall>name. schema \<noteq> JStr name)
         \<or> (\<exists>name. schema = JStr name \<and> name \<noteq> coreSchemaUrn
               \<and> (map_of rawProps name = None
                    \<or> (\<exists>v. map_of rawProps name = Some v \<and> \<not> truthy v)))"
  shows "\<exists>st'. processSchema rawProps st schema = Inr st'
               \<and> scimUserAttributes st' = scimUserAttributes st"
  using assms
proof (elim disjE exE conjE)
  assume "\<forall>name. schema \<noteq> JStr name"
  then show ?thesis by (cases schema) (simp_all add: processSchema_def)
next
  fix name assume "schema = JStr name" "name \<noteq> coreSchemaUrn" "map_of rawProps name = None"
  then show ?thesis
    by (simp add: processSchema_def getProperty_def collectAttributes_def)
next
  fix name v
  assume "schema = JStr name" "name \<noteq> coreSchemaUrn" "map_of rawProps name = Some v" "\<not> truthy v"
  then show ?thesis
    by (simp add: processSchema_def getProperty_def)
qed

lemma schemas_keep:
  assumes "forEach (processSchema rawProps) schemas st = Inr st'"
    and "allAccepted (scimUserAttributes st)" and "map_of (scimUserAttributes st) k = Some v"
  shows "map_of (scimUserAttributes st') k = Some v"
proof -
  have "allAccepted (scimUserAttributes st') \<and> map_of (scimUserAttributes st') k = Some v"
    using assms(1)
    by (rule schemas_invariant)
       (simp_all add: assms(2,3) collectAttribute_accepted collectAttribute_keeps)
  then show ?thesis by simp
qed

lemma schemas_accepted:
  assumes "forEach (processSchema rawProps) schemas \<lparr>scimUserAttributes = [], emitted = world\<rparr> = Inr st"
  shows "allAccepted (scimUserAttributes st)"
  using assms
  by (rule schemas_invariant) (simp_all add: collectAttribute_accepted, simp add: allAccepted_def)

lemma update_absent: "map_of al k = None \<Longrightarrow> AList.update k v al = al @ [(k, v)]"
  by (induction al) (auto split: if_splits)

lemma empty_array_collected:
  assumes "k \<notin> set ign" and "getProperty (scimUserAttributes st) k = Absent"
  shows "collectAttribute ign st (k, JArr []) =
           st\<lparr>scimUserAttributes := scimUserAttributes st @ [(k, JArr [])]\<rparr>"
proof -
  have "map_of (scimUserAttributes st) k = None"
    using assms(2) by (simp add: getProperty_def split: option.splits)
  then show ?thesis
    using assms by (simp add: collectAttribute_def update_absent)
qed

section \<open>The properties\<close>

text \<open>
  C1.  For an event whose kind is neither \<open>user.created\<close> nor \<open>user.updated\<close> the
  function returns the empty attribute map at once, whatever \<open>event.data.raw\<close> holds; the
  only effect is the error it logs.
\<close>

theorem unsupported_event_returns_empty:
  assumes "event ev \<noteq> ''user.created''" and "event ev \<noteq> ''user.updated''"
  shows "getAttributesFromScimPayload ids ev dir world =
           Inr ([], world @ [LogError (UnsupportedEvent (event ev))])"
  using assms by (simp add: getAttributesFromScimPayload_def)

theorem unsupported_event_returns_empty_witness:
  "event deletedEvent \<noteq> ''user.created'' \<and> event deletedEvent \<noteq> ''user.updated''
   \<and> getAttributesFromScimPayload [] deletedEvent ''dir-1'' [] =
       Inr ([], [LogError (UnsupportedEvent ''user.deleted'')])"
  using unsupported_event_returns_empty [of deletedEvent "[]" "''dir-1''" "[]"]
  by (simp add: deletedEvent_def scenarioEvent_def)

text \<open>
  C2, as amended.  The call returns an attribute map exactly when the event kind is not
  handled or \<open>event.data.raw\<close> is an object whose \<open>schemas\<close> is an array; on every other
  document of a handled event \<open>raw.schemas.forEach\<close> throws.
\<close>

theorem returns_normally_iff:
  "(\<exists>m. returned (getAttributesFromScimPayload ids ev dir world) = Inr m)
    \<longleftrightarrow> \<not> supported ev \<or> hasSchemas ev"
proof (cases "supported ev")
  case False
  then show ?thesis by (simp add: unsupported_result returned_def)
next
  case True
  show ?thesis
  proof (cases "hasSchemas ev")
    case False
    with True show ?thesis by (simp add: noSchemas_result returned_def)
  next
    case h: True
    then obtain rawProps schemas where r:
      "raw (data ev) = JObj rawProps" "getProperty rawProps ''schemas'' = Own (JArr schemas)"
      by (auto simp: hasSchemas_iff)
    obtain st where "forEach (processSchema rawProps) schemas
        \<lparr>scimUserAttributes = [], emitted = world\<rparr> = Inr st"
      using forEach_processSchema_total by blast
    then show ?thesis
      using True h by (simp add: returned_loop [OF True r] collected_def)
  qed
qed

theorem returns_normally_iff_witness:
  "supported scenarioEvent \<and> hasSchemas scenarioEvent
   \<and> (\<exists>m. returned (getAttributesFromScimPayload [] scenarioEvent ''dir-1'' []) = Inr m)"
  using returns_normally_iff [of "[]" scenarioEvent "''dir-1''" "[]"]
  by (simp add: scenarioEvent_def supported_def hasSchemas_def getProperty_def)

text \<open>
  The claim as stated fails: a \<open>user.created\<close> event whose document has no \<open>schemas\<close>
  makes the call throw a TypeError.
\<close>

theorem missing_schemas_throws:
  "getAttributesFromScimPayload [] noSchemasEvent ''dir-1'' [] = Inl TypeError"
  by (simp add: noSchemasEvent_def getAttributesFromScimPayload_def getProperty_def
        objectPrototypeKeys_def)

text \<open>
  C3, as amended.  Let \<open>schemas\<close> be \<open>earlier @ later\<close> and let \<open>st\<close> be the state after
  the entries of \<open>earlier\<close>.  Every key written by then keeps its value in the returned
  map.  If the next entry is a namespace that declares a field \<open>k\<close> with an accepted value
  (a non-empty string or an array of strings), \<open>k\<close> is not yet written and is not a name
  inherited from \<open>Object.prototype\<close> (and, for the core namespace, is not on the ignore
  list), then the returned map holds that value for \<open>k\<close>, whatever the later namespaces
  declare.
\<close>

theorem first_write_wins:
  assumes "supported ev" and "raw (data ev) = JObj rawProps"
    and "getProperty rawProps ''schemas'' = Own (JArr (earlier @ later))"
    and "forEach (processSchema rawProps) earlier
           \<lparr>scimUserAttributes = [], emitted = world\<rparr> = Inr st"
  shows "\<exists>m. returned (getAttributesFromScimPayload ids ev dir world) = Inr m
      \<and> (\<forall>k v. map_of (scimUserAttributes st) k = Some v \<longrightarrow> map_of m k = Some v)
      \<and> (\<forall>name entries rest k v.
            later = JStr name # rest \<and> name \<noteq> coreSchemaUrn
            \<and> getProperty rawProps name = Own (JObj entries)
            \<and> map_of entries k = Some v \<and> acceptedValue v
            \<and> getProperty (scimUserAttributes st) k = Absent
          \<longrightarrow> map_of m k = Some v)
      \<and> (\<forall>rest k v.
            later = JStr coreSchemaUrn # rest
            \<and> map_of (filter (\<lambda>(k, v). k \<noteq> ''schemas'') rawProps) k = Some v
            \<and> k \<notin> set coreUserAttributesToIgnore \<and> acceptedValue v
            \<and> getProperty (scimUserAttributes st) k = Absent
          \<longrightarrow> map_of m k = Some v)"
proof -
  obtain final where final: "forEach (processSchema rawProps) later st = Inr final"
    using forEach_processSchema_total by blast
  have acc: "allAccepted (scimUserAttributes st)"
    using assms(4) by (rule schemas_accepted)
  have ret: "returned (getAttributesFromScimPayload ids ev dir world) = Inr (scimUserAttributes final)"
    by (simp add: returned_loop [OF assms(1-3)] forEach_append assms(4) final collected_def)
  have keep: "map_of (scimUserAttributes final) k = Some v"
    if "map_of (scimUserAttributes st) k = Some v" for k v
    using final acc that by (rule schemas_keep)
  have win: "map_of (scimUserAttributes final) k = Some v"
    if later: "later = s # rest" and s: "processSchema rawProps st s = Inr (foldl (collectAttribute ign) st entries)"
      and e: "map_of entries k = Some v" "acceptedValue v" "k \<notin> set ign"
        "getProperty (scimUserAttributes st) k = Absent"
    for s rest ign entries k v
  proof -
    let ?st1 = "foldl (collectAttribute ign) st entries"
    have 1: "map_of (scimUserAttributes ?st1) k = Some v"
      using e acc by (rule foldl_collectAttribute_writes)
    have 2: "allAccepted (scimUserAttributes ?st1)"
      by (rule foldl_invariant) (simp_all add: acc collectAttribute_accepted)
    have "forEach (processSchema rawProps) rest ?st1 = Inr final"
      using final by (simp add: later s)
    then show ?thesis using 2 1 by (rule schemas_keep)
  qed
  have custom: "map_of (scimUserAttributes final) k = Some v"
    if "later = JStr name # rest \<and> name \<noteq> coreSchemaUrn
            \<and> getProperty rawProps name = Own (JObj entries)
            \<and> map_of entries k = Some v \<and> acceptedValue v
            \<and> getProperty (scimUserAttributes st) k = Absent" for name entries rest k v
    using that win [of "JStr name" rest "[]" entries k v]
    by (simp add: processSchema_object)
  have core: "map_of (scimUserAttributes final) k = Some v"
    if "later = JStr coreSchemaUrn # rest
            \<and> map_of (filter (\<lambda>(k, v). k \<noteq> ''schemas'') rawProps) k = Some v
            \<and> k \<notin> set coreUserAttributesToIgnore \<and> acceptedValue v
            \<and> getProperty (scimUserAttributes st) k = Absent" for rest k v
    using that win [of "JStr coreSchemaUrn" rest coreUserAttributesToIgnore
                       "filter (\<lambda>(k, v). k \<noteq> ''schemas'') rawProps" k v]
    by (simp add: processSchema_core)
  show ?thesis
    unfolding ret using keep custom core by blast
qed

theorem first_write_wins_witness:
  "supported twoLevelsEvent \<and> raw (data twoLevelsEvent) = JObj twoLevelsProps
   \<and> getProperty twoLevelsProps ''schemas'' = Own (JArr ([] @ [JStr ''first'', JStr ''second'']))
   \<and> forEach (processSchema twoLevelsProps) [] \<lparr>scimUserAttributes = [], emitted = []\<rparr> =
         Inr \<lparr>scimUserAttributes = [], emitted = []\<rparr>
   \<and> ''first'' \<noteq> coreSchemaUrn
   \<and> getProperty twoLevelsProps ''first'' = Own (JObj [(''level'', JStr ''silver'')])
   \<and> getProperty twoLevelsProps ''second'' = Own (JObj [(''level'', JStr ''gold'')])
   \<and> map_of [(''level'', JStr ''silver'')] ''level'' = Some (JStr ''silver'')
   \<and> acceptedValue (JStr ''silver'') \<and> acceptedValue (JStr ''gold'')
   \<and> getProperty [] ''level'' = Absent
   \<and> (\<exists>m. returned (getAttributesFromScimPayload [] twoLevelsEvent ''dir-1'' []) = Inr m
         \<and> map_of m ''level'' = Some (JStr ''silver''))
   \<and> supported titleNicknameEvent
   \<and> ''nickname'' \<notin> set coreUserAttributesToIgnore \<and> acceptedValue (JStr ''Bob'')
   \<and> (\<exists>m. returned (getAttributesFromScimPayload [] titleNicknameEvent ''dir-1'' []) = Inr m
         \<and> map_of m ''nickname'' = Some (JStr ''Bob''))"
  using first_write_wins [of twoLevelsEvent twoLevelsProps "[]" "[JStr ''first'', JStr ''second'']"
      "[]" "\<lparr>scimUserAttributes = [], emitted = []\<rparr>" "[]" "''dir-1''"]
    first_write_wins [of titleNicknameEvent
      "[(''schemas'', JArr [JStr ''urn:ietf:params:scim:schemas:core:2.0:User'']),
        (''title'', JStr ''VP''), (''nickname'', JStr ''Bob'')]"
      "[]" "[JStr ''urn:ietf:params:scim:schemas:core:2.0:User'']"
      "[]" "\<lparr>scimUserAttributes = [], emitted = []\<rparr>" "[]" "''dir-1''"]
  by (simp add: twoLevelsEvent_def twoLevelsProps_def titleNicknameEvent_def eval_defs)

text \<open>
  The claim as stated fails: both namespaces declare \<open>level\<close> with a string, and the map
  holds the value of the second, because the empty string of the first is falsy.
\<close>

theorem empty_string_loses:
  "isString (JStr '''') \<and> isString (JStr ''gold'')
   \<and> returned (getAttributesFromScimPayload [] emptyFirstEvent ''dir-1'' []) =
       Inr [(''level'', JStr ''gold'')]"
  by (simp add: emptyFirstEvent_def eval_defs)

text \<open>
  C4.  Processing the core namespace never writes or changes a key of the ignore list,
  whatever value the field has; when \<open>schemas\<close> names the core namespace only, the
  returned map has no such key.
\<close>

theorem core_ignore_list:
  assumes "k \<in> set coreUserAttributesToIgnore"
  shows "(\<exists>st'. processSchema rawProps st (JStr coreSchemaUrn) = Inr st'
            \<and> map_of (scimUserAttributes st') k = map_of (scimUserAttributes st) k)
       \<and> (supported ev \<and> raw (data ev) = JObj rawProps
            \<and> getProperty rawProps ''schemas'' = Own (JArr schemas)
            \<and> set schemas \<subseteq> {JStr coreSchemaUrn}
          \<longrightarrow> (\<exists>m. returned (getAttributesFromScimPayload ids ev dir world) = Inr m
                  \<and> map_of m k = None))"
proof (intro conjI impI)
  show "\<exists>st'. processSchema rawProps st (JStr coreSchemaUrn) = Inr st'
            \<and> map_of (scimUserAttributes st') k = map_of (scimUserAttributes st) k"
    by (simp add: processSchema_core foldl_collectAttribute_ignored [OF assms])
next
  assume a: "supported ev \<and> raw (data ev) = JObj rawProps
            \<and> getProperty rawProps ''schemas'' = Own (JArr schemas)
            \<and> set schemas \<subseteq> {JStr coreSchemaUrn}"
  let ?init = "\<lparr>scimUserAttributes = [], emitted = world\<rparr>"
  obtain st' where st': "forEach (processSchema rawProps) schemas ?init = Inr st'"
    using forEach_processSchema_total by blast
  have step: "map_of (scimUserAttributes s') k = None"
    if "map_of (scimUserAttributes s) k = None" "x \<in> set schemas"
       "processSchema rawProps s x = Inr s'" for s x s'
  proof -
    have "x = JStr coreSchemaUrn" using that(2) a by blast
    then have "s' = foldl (collectAttribute coreUserAttributesToIgnore) s
                      (filter (\<lambda>(k, v). k \<noteq> ''schemas'') rawProps)"
      using that(3) by (simp add: processSchema_core)
    then show ?thesis
      using that(1) by (simp add: foldl_collectAttribute_ignored [OF assms])
  qed
  have "set xs \<subseteq> set schemas \<Longrightarrow> forEach (processSchema rawProps) xs s = Inr s'
          \<Longrightarrow> map_of (scimUserAttributes s) k = None
          \<Longrightarrow> map_of (scimUserAttributes s') k = None" for xs s s'
  proof (induction xs arbitrary: s)
    case Nil
    then show ?case by simp
  next
    case (Cons x xs)
    obtain s1 where s1: "processSchema rawProps s x = Inr s1"
      using processSchema_total by blast
    have "map_of (scimUserAttributes s1) k = None"
      using step [OF Cons.prems(3) _ s1] Cons.prems(1) by simp
    then show ?case
      using Cons.IH [of s1] Cons.prems(1,2) by (simp add: s1)
  qed
  from this [OF subset_refl st'] have "map_of (scimUserAttributes st') k = None" by simp
  then show "\<exists>m. returned (getAttributesFromScimPayload ids ev dir world) = Inr m
                  \<and> map_of m k = None"
    using a by (simp add: returned_loop [of ev rawProps schemas] st' collected_def)
qed

theorem core_ignore_list_witness:
  "''title'' \<in> set coreUserAttributesToIgnore
   \<and> supported titleNicknameEvent
   \<and> returned (getAttributesFromScimPayload [] titleNicknameEvent ''dir-1'' []) =
       Inr [(''nickname'', JStr ''Bob'')]
   \<and> map_of [(''nickname'', JStr ''Bob'')] ''title'' = None"
  using core_ignore_list [of "''title''" "[(''schemas'', JArr [JStr ''urn:ietf:params:scim:schemas:core:2.0:User'']),
        (''title'', JStr ''VP''),
        (''nickname'', JStr ''Bob'')]" "\<lparr>scimUserAttributes = [], emitted = []\<rparr>" titleNicknameEvent
        "[JStr ''urn:ietf:params:scim:schemas:core:2.0:User'']" "[]" "''dir-1''" "[]"]
  by (simp add: titleNicknameEvent_def eval_defs)

text \<open>
  C5.  A field whose value is a number, a boolean, a plain object or an array with an
  element that is not a string leaves the attribute map as it was; and every value of the
  returned map is a string or an array of strings.
\<close>

theorem type_filtering:
  "(v = JNum n \<or> v = JBool b \<or> v = JObj props \<or> (v = JArr xs \<and> (\<exists>x \<in> set xs. \<not> isString x))
      \<longrightarrow> scimUserAttributes (collectAttribute ign st (k, v)) = scimUserAttributes st)
   \<and> (getAttributesFromScimPayload ids ev dir world = Inr (m, log)
      \<longrightarrow> (\<forall>(k', v') \<in> set m. isString v' \<or> isStringArray v'))"
proof (intro conjI impI)
  assume "v = JNum n \<or> v = JBool b \<or> v = JObj props \<or> (v = JArr xs \<and> (\<exists>x \<in> set xs. \<not> isString x))"
  then have "\<not> (isString v \<or> isStringArray v)"
    by (auto simp: list_all_iff)
  then show "scimUserAttributes (collectAttribute ign st (k, v)) = scimUserAttributes st"
    by (simp add: collectAttribute_attrs)
next
  assume "getAttributesFromScimPayload ids ev dir world = Inr (m, log)"
  then have "allAccepted m" by (rule output_accepted)
  then show "\<forall>(k', v') \<in> set m. isString v' \<or> isStringArray v'"
    by (auto simp: allAccepted_def list_all_iff acceptedValue_def)
qed

theorem type_filtering_witness:
  "scimUserAttributes (collectAttribute [] \<lparr>scimUserAttributes = [], emitted = []\<rparr> (''score'', JNum 42)) = []
   \<and> getAttributesFromScimPayload [] scoreEvent ''dir-1'' [] =
        Inr ([(''segment'', JArr [JStr ''SMB'', JStr ''Enterprise''])], [])
   \<and> isStringArray (JArr [JStr ''SMB'', JStr ''Enterprise''])"
  using type_filtering [of "JNum 42" 42 True "[]" "[]" "[]"
      "\<lparr>scimUserAttributes = [], emitted = []\<rparr>" "''score''" "[]" scoreEvent "''dir-1''" "[]"
      "[(''segment'', JArr [JStr ''SMB'', JStr ''Enterprise''])]" "[]"]
  by (simp add: scoreEvent_def eval_defs)

text \<open>
  C6.  No value of the returned map is falsy (\<open>null\<close>, \<open>undefined\<close>, the empty string), an
  object, a number, or an array with an element that is not a string.
\<close>

theorem output_values:
  assumes "getAttributesFromScimPayload ids ev dir world = Inr (m, log)" and "(k, v) \<in> set m"
  shows "truthy v \<and> v \<noteq> JNull \<and> v \<noteq> JUndefined \<and> v \<noteq> JStr []
         \<and> (\<forall>n. v \<noteq> JNum n) \<and> (\<forall>props. v \<noteq> JObj props)
         \<and> (\<forall>xs. v = JArr xs \<longrightarrow> list_all isString xs)"
proof -
  have "allAccepted m" using assms(1) by (rule output_accepted)
  then have "acceptedValue v"
    using assms(2) by (auto simp: allAccepted_def list_all_iff)
  then show ?thesis
    by (cases v) (simp_all add: acceptedValue_def)
qed

theorem output_values_witness:
  "getAttributesFromScimPayload [] scenarioEvent ''dir-1'' [] =
     Inr ([(''segment'', JStr ''SMB''), (''territory'', JStr ''NAM'')], [])
   \<and> (''segment'', JStr ''SMB'') \<in> set [(''segment'', JStr ''SMB''), (''territory'', JStr ''NAM'')]
   \<and> truthy (JStr ''SMB'')"
  using output_values [of "[]" scenarioEvent "''dir-1''" "[]"
      "[(''segment'', JStr ''SMB''), (''territory'', JStr ''NAM'')]" "[]" "''segment''" "JStr ''SMB''"]
  by (simp add: scenarioEvent_def eval_defs)

text \<open>
  C7.  A \<open>schemas\<close> entry that is not a string, or a string whose sub-object in \<open>raw\<close> is
  missing or falsy, leaves the attribute map as it was, and the call returns what the
  loop returns for \<open>schemas\<close> without that entry.  The strings that name a sub-object are
  those other than the core identifier, which stands for the root of the document and
  never reaches the lookup.
\<close>

theorem skipped_namespace:
  assumes "(\<forall>name. schema \<noteq> JStr name)
         \<or> (\<exists>name. schema = JStr name \<and> name \<noteq> coreSchemaUrn
               \<and> (map_of rawProps name = None
                    \<or> (\<exists>v. map_of rawProps name = Some v \<and> \<not> truthy v)))"
  shows "(\<exists>st'. processSchema rawProps st schema = Inr st'
               \<and> scimUserAttributes st' = scimUserAttributes st)
       \<and> collected (forEach (processSchema rawProps) (earlier @ schema # later) st) =
           collected (forEach (processSchema rawProps) (earlier @ later) st)
       \<and> (supported ev \<and> raw (data ev) = JObj rawProps
            \<and> getProperty rawProps ''schemas'' = Own (JArr (earlier @ schema # later))
          \<longrightarrow> returned (getAttributesFromScimPayload ids ev dir world) =
                collected (forEach (processSchema rawProps) (earlier @ later)
                             \<lparr>scimUserAttributes = [], emitted = world\<rparr>))"
proof -
  have skip: "\<exists>st'. processSchema rawProps s schema = Inr st'
               \<and> scimUserAttributes st' = scimUserAttributes s" for s
    using assms by (rule processSchema_skips)
  have loop: "collected (forEach (processSchema rawProps) (earlier @ schema # later) s) =
           collected (forEach (processSchema rawProps) (earlier @ later) s)" for s
  proof -
    obtain s1 where s1: "forEach (processSchema rawProps) earlier s = Inr s1"
      using forEach_processSchema_total by blast
    obtain s2 where s2: "processSchema rawProps s1 schema = Inr s2"
      "scimUserAttributes s2 = scimUserAttributes s1"
      using skip by blast
    show ?thesis
      using forEach_processSchema_same [OF s2(2), of rawProps later]
      by (simp add: forEach_append s1 s2(1))
  qed
  show ?thesis
    using skip [of st] loop by (auto simp: returned_loop)
qed

theorem skipped_namespace_witness:
  "map_of [(''schemas'', JArr [JStr ''custom'', JStr ''territory'']),
           (''territory'', JObj [(''territory'', JStr ''NAM'')])] ''custom'' = None
   \<and> ''custom'' \<noteq> coreSchemaUrn
   \<and> supported missingNamespaceEvent
   \<and> returned (getAttributesFromScimPayload [] missingNamespaceEvent ''dir-1'' []) =
       Inr [(''territory'', JStr ''NAM'')]"
  using skipped_namespace [of "JStr ''custom''"
      "[(''schemas'', JArr [JStr ''custom'', JStr ''territory'']),
        (''territory'', JObj [(''territory'', JStr ''NAM'')])]"
      "\<lparr>scimUserAttributes = [], emitted = []\<rparr>" "[]" "[JStr ''territory'']"
      missingNamespaceEvent "[]" "''dir-1''" "[]"]
  by (simp add: missingNamespaceEvent_def eval_defs)

text \<open>
  C8.  On the first scenario of the specification the function returns exactly
  \<open>{segment: "SMB", territory: "NAM"}\<close>.
\<close>

theorem scenario_segment_territory:
  "returned (getAttributesFromScimPayload ids scenarioEvent dir world) =
     Inr [(''segment'', JStr ''SMB''), (''territory'', JStr ''NAM'')]"
  by (simp add: scenarioEvent_def eval_defs)

text \<open>
  C9.  What a call returns depends on the event alone and not on what was logged before:
  two calls with the same event and the same directory identifier return the same
  attribute map (or both throw).
\<close>

theorem extraction_deterministic:
  "returned (getAttributesFromScimPayload ids ev dir world) =
   returned (getAttributesFromScimPayload ids ev dir world')"
  by (rule returned_independent)

text \<open>
  C10.  The empty array is truthy and every element of it is a string, so a field \<open>[]\<close>
  is written when its name is not ignored and \<open>scimUserAttributes[name]\<close> is undefined
  (\<open>empty_array_collected\<close>).  For a name that \<open>Object.prototype\<close> defines the lookup
  finds the inherited property, and the field is reported as existing and dropped.
\<close>

theorem inherited_name_not_collected:
  "getAttributesFromScimPayload [] constructorEvent ''dir-1'' [] =
     Inr ([], [LogWarn (CustomAttributeExists ''constructor'')])"
  by (simp add: constructorEvent_def eval_defs)

end
